theory Spec2Isabelle
  imports Complex_Main
begin

section \<open>Python and NumPy values\<close>

text \<open>
  The exceptions the modelled code can raise. A failing statement is a value \<open>Inl e\<close>;
  the interpreter state at the point of the exception is kept beside it.
\<close>

datatype py_error = NameError | AttributeError | IndexError | ValueError | TypeError

text \<open>
  A NumPy \<open>float64\<close>. Finite values are real numbers and arithmetic on them is exact:
  rounding, overflow and the sign of zero are not modelled. The special values follow
  IEEE 754, which NumPy implements: dividing by zero raises nothing, it yields
  \<open>inf\<close>, \<open>-inf\<close> or \<open>nan\<close> (with a RuntimeWarning that does not stop the program).
  The theorems about arbitrary inputs use of this arithmetic only laws that rounded
  arithmetic has as well: \<open>1 * q = q\<close>, \<open>0 + q = q\<close>, \<open>(-a) * b = -(a * b)\<close>,
  \<open>(-a) + (-b) = -(a + b)\<close> and the propagation of \<open>inf\<close> and \<open>nan\<close>; none uses
  associativity or distributivity.
\<close>

datatype float64 = Fin real | PInf | NInf | NaN

definition inf_of_sign :: "real \<Rightarrow> float64" where
  "inf_of_sign a = (if a = 0 then NaN else if 0 < a then PInf else NInf)"

fun fneg :: "float64 \<Rightarrow> float64" where
  "fneg (Fin a) = Fin (- a)"
| "fneg PInf = NInf"
| "fneg NInf = PInf"
| "fneg NaN = NaN"

fun fadd :: "float64 \<Rightarrow> float64 \<Rightarrow> float64" where
  "fadd (Fin a) (Fin b) = Fin (a + b)"
| "fadd NaN y = NaN"
| "fadd x NaN = NaN"
| "fadd PInf NInf = NaN"
| "fadd NInf PInf = NaN"
| "fadd PInf y = PInf"
| "fadd x PInf = PInf"
| "fadd NInf y = NInf"
| "fadd x NInf = NInf"

definition fsub :: "float64 \<Rightarrow> float64 \<Rightarrow> float64" where
  "fsub x y = fadd x (fneg y)"

fun fmul :: "float64 \<Rightarrow> float64 \<Rightarrow> float64" where
  "fmul (Fin a) (Fin b) = Fin (a * b)"
| "fmul NaN y = NaN"
| "fmul x NaN = NaN"
| "fmul (Fin a) PInf = inf_of_sign a"
| "fmul (Fin a) NInf = inf_of_sign (- a)"
| "fmul PInf (Fin b) = inf_of_sign b"
| "fmul NInf (Fin b) = inf_of_sign (- b)"
| "fmul PInf PInf = PInf"
| "fmul PInf NInf = NInf"
| "fmul NInf PInf = NInf"
| "fmul NInf NInf = PInf"

fun fdiv :: "float64 \<Rightarrow> float64 \<Rightarrow> float64" where
  "fdiv (Fin a) (Fin b) = (if b = 0 then inf_of_sign a else Fin (a / b))"
| "fdiv NaN y = NaN"
| "fdiv x NaN = NaN"
| "fdiv (Fin a) PInf = Fin 0"
| "fdiv (Fin a) NInf = Fin 0"
| "fdiv PInf (Fin b) = (if 0 \<le> b then PInf else NInf)"
| "fdiv NInf (Fin b) = (if 0 \<le> b then NInf else PInf)"
| "fdiv x y = NaN"


subsection \<open>Array values and broadcasting\<close>

text \<open>
  The value of an array: its shape and its entries in row-major (C) order. A scalar is
  the array of shape \<open>[]\<close> with one entry. Binary operators on arrays broadcast as
  NumPy does: shapes are aligned at their last axis, an axis of length 1 is stretched,
  and any other disagreement is a ValueError.
\<close>

type_synonym array_val = "nat list \<times> float64 list"

definition scalar :: "float64 \<Rightarrow> array_val" where
  "scalar x = ([], [x])"

fun bshape_rev :: "nat list \<Rightarrow> nat list \<Rightarrow> py_error + nat list" where
  "bshape_rev [] ys = Inr ys"
| "bshape_rev xs [] = Inr xs"
| "bshape_rev (x # xs) (y # ys) =
     (if x = y \<or> x = 1 \<or> y = 1
      then (case bshape_rev xs ys of
              Inl e \<Rightarrow> Inl e
            | Inr zs \<Rightarrow> Inr ((if x = 1 then y else x) # zs))
      else Inl ValueError)"

definition broadcast_shapes :: "nat list \<Rightarrow> nat list \<Rightarrow> py_error + nat list" where
  "broadcast_shapes s1 s2 =
     (case bshape_rev (rev s1) (rev s2) of Inl e \<Rightarrow> Inl e | Inr zs \<Rightarrow> Inr (rev zs))"

fun unravel_rev :: "nat list \<Rightarrow> nat \<Rightarrow> nat list" where
  "unravel_rev [] k = []"
| "unravel_rev (d # ds) k = (k mod d) # unravel_rev ds (k div d)"

fun src_index_rev :: "nat list \<Rightarrow> nat list \<Rightarrow> nat" where
  "src_index_rev [] js = 0"
| "src_index_rev ds [] = 0"
| "src_index_rev (d # ds) (j # js) = (if d = 1 then 0 else j) + d * src_index_rev ds js"

definition bget :: "array_val \<Rightarrow> nat list \<Rightarrow> nat \<Rightarrow> float64" where
  "bget a rs k = snd a ! src_index_rev (rev (fst a)) (unravel_rev (rev rs) k)"

definition binop ::
  "(float64 \<Rightarrow> float64 \<Rightarrow> float64) \<Rightarrow> array_val \<Rightarrow> array_val \<Rightarrow> py_error + array_val" where
  "binop f a b =
     (case broadcast_shapes (fst a) (fst b) of
        Inl e \<Rightarrow> Inl e
      | Inr rs \<Rightarrow> Inr (rs, map (\<lambda>k. f (bget a rs k) (bget b rs k)) [0..<prod_list rs]))"

definition np_sum :: "array_val \<Rightarrow> float64" where
  "np_sum a = foldl fadd (Fin 0) (snd a)"

section \<open>The interpreter state\<close>

text \<open>
  Arrays are objects: a buffer on the heap and, for each Python reference, a base
  address and a shape. \<open>ravel\<close> and \<open>reshape\<close> of a contiguous array return a view, a
  new reference to the same buffer; \<open>copy.copy\<close>, \<open>flatten\<close> and \<open>np.zeros\<close> allocate.
  Only C-contiguous arrays that span their whole buffer are modelled. Buffers are
  never freed. The state also records every call of the user's function, in order,
  with the argument values it saw.
\<close>

record ndarray =
  base :: nat
  shape :: "nat list"

record 'c pystate =
  heap :: "float64 list list"
  calls :: "'c list"

type_synonym ('a, 'c) py = "'c pystate \<Rightarrow> (py_error + 'a) \<times> 'c pystate"

definition py_return :: "'a \<Rightarrow> ('a, 'c) py" where
  "py_return x s = (Inr x, s)"

definition py_raise :: "py_error \<Rightarrow> ('a, 'c) py" where
  "py_raise e s = (Inl e, s)"

definition py_bind :: "('a, 'c) py \<Rightarrow> ('a \<Rightarrow> ('b, 'c) py) \<Rightarrow> ('b, 'c) py" where
  "py_bind m f s = (case m s of (Inl e, s') \<Rightarrow> (Inl e, s') | (Inr x, s') \<Rightarrow> f x s')"

definition py_lift :: "py_error + 'a \<Rightarrow> ('a, 'c) py" where
  "py_lift r s = (r, s)"

fun for_each :: "nat list \<Rightarrow> (nat \<Rightarrow> (unit, 'c) py) \<Rightarrow> (unit, 'c) py" where
  "for_each [] body = py_return ()"
| "for_each (i # is) body = py_bind (body i) (\<lambda>_. for_each is body)"

definition for_range :: "nat \<Rightarrow> (nat \<Rightarrow> (unit, 'c) py) \<Rightarrow> (unit, 'c) py" where
  "for_range n body = for_each [0..<n] body"

definition asize :: "ndarray \<Rightarrow> nat" where
  "asize a = prod_list (shape a)"

definition data_of :: "'c pystate \<Rightarrow> ndarray \<Rightarrow> float64 list" where
  "data_of s a = heap s ! base a"

definition value_of :: "'c pystate \<Rightarrow> ndarray \<Rightarrow> array_val" where
  "value_of s a = (shape a, data_of s a)"

definition np_alloc :: "nat list \<Rightarrow> float64 list \<Rightarrow> (ndarray, 'c) py" where
  "np_alloc sh d s = (Inr \<lparr>base = length (heap s), shape = sh\<rparr>, s\<lparr>heap := heap s @ [d]\<rparr>)"

definition np_zeros :: "nat \<Rightarrow> (ndarray, 'c) py" where
  "np_zeros n = np_alloc [n] (replicate n (Fin 0))"

definition np_ones :: "nat \<Rightarrow> array_val" where
  "np_ones n = ([n], replicate n (Fin 1))"

definition ravel :: "ndarray \<Rightarrow> ndarray" where
  "ravel a = \<lparr>base = base a, shape = [asize a]\<rparr>"

definition copy_copy :: "ndarray \<Rightarrow> (ndarray, 'c) py" where
  "copy_copy a s = np_alloc (shape a) (data_of s a) s"

definition flatten :: "ndarray \<Rightarrow> (ndarray, 'c) py" where
  "flatten a s = np_alloc [asize a] (data_of s a) s"

definition reshape :: "ndarray \<Rightarrow> nat list \<Rightarrow> (ndarray, 'c) py" where
  "reshape a sh =
     (if prod_list sh = asize a then py_return \<lparr>base = base a, shape = sh\<rparr>
      else py_raise ValueError)"

text \<open>Reading and writing entry \<open>i\<close> of a one-dimensional array, \<open>i\<close> from a \<open>range\<close>.\<close>

definition getitem :: "ndarray \<Rightarrow> nat \<Rightarrow> (float64, 'c) py" where
  "getitem a i s = (if i < asize a then (Inr (data_of s a ! i), s) else (Inl IndexError, s))"

definition setitem :: "ndarray \<Rightarrow> nat \<Rightarrow> float64 \<Rightarrow> (unit, 'c) py" where
  "setitem a i x s =
     (if i < asize a
      then (Inr (), s\<lparr>heap := (heap s)[base a := (data_of s a)[i := x]]\<rparr>)
      else (Inl IndexError, s))"

section \<open>grad\_num\<close>

text \<open>
  The step size as Python sees it: a \<open>float\<close>, another Python scalar without array
  methods (an \<open>int\<close>), a NumPy scalar (\<open>np.float64\<close>, whose \<open>ravel\<close> is a new array of
  one entry), or an array.
\<close>

datatype step_size = PyFloat float64 | PyInt int | NpFloat float64 | NdArray ndarray

text \<open>
  \<^verbatim>\<open>if type(step_size) == float: step = step_size*np.ones((N))\<close>
  \<^verbatim>\<open>else: step = step_size.ravel()\<close>
  The product is a new array; the temporary \<open>np.ones((N))\<close> is a value. A Python
  \<open>int\<close> has no attribute \<open>ravel\<close>.
\<close>

definition make_step :: "step_size \<Rightarrow> nat \<Rightarrow> (ndarray, 'c) py" where
  "make_step step_size N =
     (case step_size of
        PyFloat x \<Rightarrow>
          py_bind (py_lift (binop fmul (scalar x) (np_ones N))) (\<lambda>v. np_alloc (fst v) (snd v))
      | PyInt k \<Rightarrow> py_raise AttributeError
      | NpFloat x \<Rightarrow> np_alloc [1] [x]
      | NdArray a \<Rightarrow> py_return (ravel a))"

text \<open>
  The function to differentiate maps an array to a number. It is a function of the
  value of its argument: it has no state of its own and writes to no array.
\<close>

definition call_fn :: "(array_val \<Rightarrow> float64) \<Rightarrow> ndarray \<Rightarrow> (float64, array_val) py" where
  "call_fn fn a s = (Inr (fn (value_of s a)), s\<lparr>calls := calls s @ [value_of s a]\<rparr>)"

text \<open>
  The body of the loop:
  \<^verbatim>\<open>arg_new = copy.copy(arg.ravel())\<close>
  \<^verbatim>\<open>arg_new[i] += step[i]\<close>
  \<^verbatim>\<open>f_new_i = fn(arg_new.reshape(shape))\<close>
  \<^verbatim>\<open>gradient[i] = (f_new_i - f_old) / step[i]\<close>
\<close>

definition grad_num_body ::
  "(array_val \<Rightarrow> float64) \<Rightarrow> ndarray \<Rightarrow> nat list \<Rightarrow> ndarray \<Rightarrow> float64 \<Rightarrow> ndarray \<Rightarrow>
   nat \<Rightarrow> (unit, array_val) py" where
  "grad_num_body fn arg shp gradient f_old step i =
     py_bind (copy_copy (ravel arg)) (\<lambda>arg_new.
     py_bind (getitem arg_new i) (\<lambda>x.
     py_bind (getitem step i) (\<lambda>h.
     py_bind (setitem arg_new i (fadd x h)) (\<lambda>_.
     py_bind (reshape arg_new shp) (\<lambda>view.
     py_bind (call_fn fn view) (\<lambda>f_new_i.
     py_bind (getitem step i) (\<lambda>h'.
     setitem gradient i (fdiv (fsub f_new_i f_old) h'))))))))"

text \<open>
  \<^verbatim>\<open>N = arg.size; shape = arg.shape\<close>
  \<^verbatim>\<open>gradient = np.zeros((N,))\<close>
  \<^verbatim>\<open>f_old = fn(arg)\<close>
  \<^verbatim>\<open>(the choice of step)\<close>
  \<^verbatim>\<open>for i in range(N): (the body)\<close>
  \<^verbatim>\<open>return gradient.reshape(shape)\<close>
\<close>

definition grad_num ::
  "(array_val \<Rightarrow> float64) \<Rightarrow> ndarray \<Rightarrow> step_size \<Rightarrow> (ndarray, array_val) py" where
  "grad_num fn arg step_size =
     (let N = asize arg; shp = shape arg in
      py_bind (np_zeros N) (\<lambda>gradient.
      py_bind (call_fn fn arg) (\<lambda>f_old.
      py_bind (make_step step_size N) (\<lambda>step.
      py_bind (for_range N (grad_num_body fn arg shp gradient f_old step)) (\<lambda>_.
      reshape gradient shp)))))"

section \<open>vjp\_maker\_num\<close>

text \<open>
  A Python function of several positional array arguments: calling it with another
  number of arguments is a TypeError. Its body sees the values of its arguments and
  returns the value of a new array.
\<close>

record pyfun =
  fn_arity :: nat
  fn_body :: "array_val list \<Rightarrow> array_val"

definition call_fun :: "pyfun \<Rightarrow> ndarray list \<Rightarrow> (array_val, array_val list) py" where
  "call_fun fn args s =
     (if length args = fn_arity fn
      then (Inr (fn_body fn (map (value_of s) args)),
            s\<lparr>calls := calls s @ [map (value_of s) args]\<rparr>)
      else (Inl TypeError, s))"

text \<open>Subscripting a Python list or tuple: a negative index counts from the end.\<close>

definition py_index :: "nat \<Rightarrow> int \<Rightarrow> py_error + nat" where
  "py_index n i =
     (if 0 \<le> i \<and> i < int n then Inr (nat i)
      else if - int n \<le> i \<and> i < 0 then Inr (nat (i + int n))
      else Inl IndexError)"

definition py_getitem :: "'a list \<Rightarrow> int \<Rightarrow> py_error + 'a" where
  "py_getitem xs i = (case py_index (length xs) i of Inl e \<Rightarrow> Inl e | Inr k \<Rightarrow> Inr (xs ! k))"

definition py_setitem :: "'a list \<Rightarrow> int \<Rightarrow> 'a \<Rightarrow> py_error + 'a list" where
  "py_setitem xs i x =
     (case py_index (length xs) i of Inl e \<Rightarrow> Inl e | Inr k \<Rightarrow> Inr (xs[k := x]))"

text \<open>
  The body of the loop of \<open>vjp\<close>:
  \<^verbatim>\<open>args_new = list(args)\<close>
  \<^verbatim>\<open>args_rav = args[arg_ind].flatten()\<close>
  \<^verbatim>\<open>args_rav[ip] += step\<close>
  \<^verbatim>\<open>args_new[arg_ind] = args_rav.reshape(shape)\<close>
  \<^verbatim>\<open>dfn_darg = (fn(*args_new) - fn_out)/step\<close>
  \<^verbatim>\<open>vjp_num[ip] = np.sum(v * dfn_darg)\<close>
  The temporaries of the two expressions are values: nothing else refers to them.
\<close>

definition vjp_body ::
  "pyfun \<Rightarrow> int \<Rightarrow> nat list \<Rightarrow> float64 \<Rightarrow> ndarray \<Rightarrow> ndarray list \<Rightarrow> ndarray \<Rightarrow> ndarray \<Rightarrow>
   nat \<Rightarrow> (unit, array_val list) py" where
  "vjp_body fn arg_ind shp step fn_out args v vjp_num ip =
     py_bind (py_lift (py_getitem args arg_ind)) (\<lambda>a.
     py_bind (flatten a) (\<lambda>args_rav.
     py_bind (getitem args_rav ip) (\<lambda>x.
     py_bind (setitem args_rav ip (fadd x step)) (\<lambda>_.
     py_bind (reshape args_rav shp) (\<lambda>view.
     py_bind (py_lift (py_setitem args arg_ind view)) (\<lambda>args_new.
     py_bind (call_fun fn args_new) (\<lambda>out.
     py_bind (\<lambda>s. (binop fsub out (value_of s fn_out), s)) (\<lambda>diff.
     py_bind (py_lift (binop fdiv diff (scalar step))) (\<lambda>dfn_darg.
     py_bind (\<lambda>s. (binop fmul (value_of s v) dfn_darg, s)) (\<lambda>weighted.
     setitem vjp_num ip (np_sum weighted)))))))))))"

text \<open>
  \<^verbatim>\<open>def vjp(v): vjp_num = np.zeros(num_p); for ip in range(num_p): ...; return vjp_num\<close>
\<close>

definition vjp ::
  "pyfun \<Rightarrow> int \<Rightarrow> nat list \<Rightarrow> nat \<Rightarrow> float64 \<Rightarrow> ndarray \<Rightarrow> ndarray list \<Rightarrow> ndarray \<Rightarrow>
   (ndarray, array_val list) py" where
  "vjp fn arg_ind shp num_p step fn_out args v =
     py_bind (np_zeros num_p) (\<lambda>vjp_num.
     py_bind (for_range num_p (vjp_body fn arg_ind shp step fn_out args v vjp_num)) (\<lambda>_.
     py_return vjp_num))"

type_synonym vjp_closure = "ndarray \<Rightarrow> (ndarray, array_val list) py"

type_synonym vjp_generator = "ndarray \<Rightarrow> ndarray list \<Rightarrow> py_error + vjp_closure"

text \<open>
  \<^verbatim>\<open>def vjp_maker(fn_out, *args):\<close>
  \<^verbatim>\<open>    shape = args[arg_ind].shape; num_p = args[arg_ind].size; step = steps[ia]\<close>
  It reads only the list of references and the shape: no array is touched.
\<close>

definition vjp_maker :: "pyfun \<Rightarrow> int \<Rightarrow> float64 list \<Rightarrow> nat \<Rightarrow> vjp_generator" where
  "vjp_maker fn arg_ind steps ia fn_out args =
     (case py_getitem args arg_ind of
        Inl e \<Rightarrow> Inl e
      | Inr a \<Rightarrow>
          (case py_getitem steps (int ia) of
             Inl e \<Rightarrow> Inl e
           | Inr step \<Rightarrow> Inr (vjp fn arg_ind (shape a) (asize a) step fn_out args)))"

text \<open>
  \<^verbatim>\<open>def vjp_single_arg(ia): arg_ind = arg_inds[ia]; step = steps[ia]; ...; return vjp_maker\<close>
\<close>

definition vjp_single_arg ::
  "pyfun \<Rightarrow> int list \<Rightarrow> float64 list \<Rightarrow> nat \<Rightarrow> py_error + vjp_generator" where
  "vjp_single_arg fn arg_inds steps ia =
     (case py_getitem arg_inds (int ia) of
        Inl e \<Rightarrow> Inl e
      | Inr arg_ind \<Rightarrow>
          (case py_getitem steps (int ia) of
             Inl e \<Rightarrow> Inl e
           | Inr step \<Rightarrow> Inr (vjp_maker fn arg_ind steps ia)))"

text \<open>
  \<^verbatim>\<open>vjp_makers = []\<close>
  \<^verbatim>\<open>for ia in range(len(arg_inds)): vjp_makers.append(vjp_single_arg(ia=ia))\<close>
  \<^verbatim>\<open>return tuple(vjp_makers)\<close>
\<close>

fun vjp_makers_loop ::
  "pyfun \<Rightarrow> int list \<Rightarrow> float64 list \<Rightarrow> nat list \<Rightarrow> vjp_generator list \<Rightarrow>
   py_error + vjp_generator list" where
  "vjp_makers_loop fn arg_inds steps [] vjp_makers = Inr vjp_makers"
| "vjp_makers_loop fn arg_inds steps (ia # ias) vjp_makers =
     (case vjp_single_arg fn arg_inds steps ia of
        Inl e \<Rightarrow> Inl e
      | Inr m \<Rightarrow> vjp_makers_loop fn arg_inds steps ias (vjp_makers @ [m]))"

definition vjp_maker_num ::
  "pyfun \<Rightarrow> int list \<Rightarrow> float64 list \<Rightarrow> py_error + vjp_generator list" where
  "vjp_maker_num fn arg_inds steps = vjp_makers_loop fn arg_inds steps [0..<length arg_inds] []"

text \<open>
  How the AD engine uses the factory: it builds the generators once, calls generator
  \<open>ia\<close> with the output and the arguments of the primitive, and calls the closure it
  gets with the cotangent:
  \<^verbatim>\<open>vjp_maker_num(fn, arg_inds, steps)[ia](fn_out, *args)(v)\<close>
\<close>

definition vjp_of ::
  "pyfun \<Rightarrow> int list \<Rightarrow> float64 list \<Rightarrow> nat \<Rightarrow> ndarray \<Rightarrow> ndarray list \<Rightarrow> ndarray \<Rightarrow>
   (ndarray, array_val list) py" where
  "vjp_of fn arg_inds steps ia fn_out args v =
     (case vjp_maker_num fn arg_inds steps of
        Inl e \<Rightarrow> py_raise e
      | Inr gens \<Rightarrow>
          (case py_getitem gens (int ia) of
             Inl e \<Rightarrow> py_raise e
           | Inr gen \<Rightarrow> (case gen fn_out args of Inl e \<Rightarrow> py_raise e | Inr cl \<Rightarrow> cl v)))"

section \<open>jacobian\_forward\<close>

text \<open>
  The names bound at the top level of \<open>utils.py\<close>, in the order of their binding. A
  name that a function body reads without binding it is looked up here (and then among
  the builtins, none of which is called \<open>fun\<close>).
\<close>

definition utils_global_names :: "string list" where
  "utils_global_names =
     [''np'', ''sp'', ''copy'', ''plt'', ''make_vjp'', ''npa'', ''make_sparse'', ''grad_num'',
      ''circ2eps'', ''grid_coords'', ''vjp_maker_num'', ''_make_vjp'', ''_make_jvp'',
      ''unary_to_nary'', ''primitive'', ''defvjp_argnum'', ''vspace'', ''jacobian_forward'',
      ''aniplot'', ''measure_fields'', ''fft'', ''fftfreq'', ''stft'', ''specshow'',
      ''get_spectrum'', ''get_max_power_freq'', ''get_spectral_power'',
      ''plot_spectral_power'']"

definition load_global :: "(string \<times> 'v) list \<Rightarrow> string \<Rightarrow> py_error + 'v" where
  "load_global globals name =
     (case map_of globals name of None \<Rightarrow> Inl NameError | Some obj \<Rightarrow> Inr obj)"

text \<open>
  \<^verbatim>\<open>def jacobian_forward(fn, x):\<close>
  \<^verbatim>\<open>    vjp, ans = _make_vjp(fun, x)\<close>
  \<^verbatim>\<open>    ...\<close>
  \<^verbatim>\<open>    return np.reshape(np.stack(grads), jacobian_shape)\<close>
  The decorator \<open>unary_to_nary\<close> of autograd turns this body into
  \<open>jacobian_forward(fn, argnum)\<close>, whose result, called with the arguments, runs the
  body with the function of the selected argument and that argument's value.
  The parameter is \<open>fn\<close>; the body reads \<open>fun\<close>, which is neither a parameter nor a
  local, so it is loaded from the module's globals. What the AD engine (autograd's
  \<open>make_vjp\<close>, \<open>vspace\<close> and \<open>standard_basis\<close>, which are not part of this repository)
  then assembles from the loaded object and \<open>x\<close> is the parameter \<open>assemble\<close>.
\<close>

definition jacobian_forward ::
  "('v \<Rightarrow> 'x \<Rightarrow> py_error + 'j) \<Rightarrow> (string \<times> 'v) list \<Rightarrow> 'f \<Rightarrow> 'x \<Rightarrow> py_error + 'j" where
  "jacobian_forward assemble globals fn x =
     (case load_global globals ''fun'' of Inl e \<Rightarrow> Inl e | Inr f \<Rightarrow> assemble f x)"

section \<open>Vocabulary of the statements\<close>

text \<open>An array reference is well formed when its buffer exists and has one entry per index.\<close>

definition wf_array :: "'c pystate \<Rightarrow> ndarray \<Rightarrow> bool" where
  "wf_array s a \<longleftrightarrow> base a < length (heap s) \<and> length (heap s ! base a) = asize a"




text \<open>The flat entries \<open>xs\<close> with entry \<open>i\<close> incremented by \<open>h\<close>.\<close>

definition perturbed :: "float64 list \<Rightarrow> float64 \<Rightarrow> nat \<Rightarrow> float64 list" where
  "perturbed xs h i = xs[i := fadd (xs ! i) h]"

text \<open>
  The forward difference quotient of \<open>fn\<close> at the entries \<open>xs\<close> of an array of shape
  \<open>shp\<close>, in direction \<open>i\<close>, with the steps \<open>hs\<close> and the base value \<open>f_old\<close>.
\<close>

definition fd_quotient ::
  "(array_val \<Rightarrow> float64) \<Rightarrow> nat list \<Rightarrow> float64 list \<Rightarrow> float64 list \<Rightarrow> float64 \<Rightarrow> nat \<Rightarrow>
   float64" where
  "fd_quotient fn shp xs hs f_old i =
     fdiv (fsub (fn (shp, perturbed xs (hs ! i) i)) f_old) (hs ! i)"

text \<open>
  The argument values with entry \<open>p\<close> of argument \<open>k\<close> alone incremented by \<open>step\<close>, and
  the sum over the \<open>M\<close> output entries of cotangent times difference quotient.
\<close>

definition vjp_args ::
  "array_val list \<Rightarrow> nat \<Rightarrow> nat list \<Rightarrow> float64 \<Rightarrow> nat \<Rightarrow> array_val list" where
  "vjp_args vals k shp step p = vals[k := (shp, perturbed (snd (vals ! k)) step p)]"

definition vjp_slot ::
  "float64 list \<Rightarrow> float64 list \<Rightarrow> float64 list \<Rightarrow> float64 \<Rightarrow> nat \<Rightarrow> float64" where
  "vjp_slot vd out fo step M =
     foldl fadd (Fin 0) (map (\<lambda>j. fmul (vd ! j) (fdiv (fsub (out ! j) (fo ! j)) step)) [0..<M])"

text \<open>A function of one array with a single scalar output, as a primitive of arity one.\<close>

definition scalar_fun :: "(array_val \<Rightarrow> float64) \<Rightarrow> pyfun" where
  "scalar_fun fn = \<lparr>fn_arity = 1, fn_body = (\<lambda>vals. scalar (fn (hd vals)))\<rparr>"


text \<open>
  Proof devices for the frame property: \<open>frame_ok n s s'\<close> says that the first \<open>n\<close>
  buffers are the same in \<open>s'\<close> as in \<open>s\<close>; \<open>keeps n m Q\<close> says that the computation \<open>m\<close>
  leaves the first \<open>n\<close> buffers alone, whether it returns or raises, and that a returned
  value satisfies \<open>Q\<close>.
\<close>

definition frame_ok :: "nat \<Rightarrow> 'c pystate \<Rightarrow> 'c pystate \<Rightarrow> bool" where
  "frame_ok n s s' \<longleftrightarrow> n \<le> length (heap s') \<and> take n (heap s') = take n (heap s)"

definition keeps :: "nat \<Rightarrow> ('a, 'c) py \<Rightarrow> ('a \<Rightarrow> bool) \<Rightarrow> bool" where
  "keeps n m Q \<longleftrightarrow>
     (\<forall>s. n \<le> length (heap s) \<longrightarrow>
        frame_ok n s (snd (m s)) \<and> (\<forall>x. fst (m s) = Inr x \<longrightarrow> Q x))"

section \<open>Example inputs\<close>

text \<open>
  The objective \<open>f(x) = sum(x**2)\<close> and the primitive \<open>fn(a, b) = a * b\<close> (entry by
  entry, for two arrays of one shape), the examples of the test scenarios.
\<close>

definition sum_squares :: "array_val \<Rightarrow> float64" where
  "sum_squares a = np_sum (fst a, map (\<lambda>x. fmul x x) (snd a))"

definition product_fn :: pyfun where
  "product_fn =
     \<lparr>fn_arity = 2,
      fn_body = (\<lambda>vals. (fst (vals ! 1),
                   map (\<lambda>j. fmul (snd (vals ! 0) ! j) (snd (vals ! 1) ! j))
                     [0..<prod_list (fst (vals ! 1))]))\<rparr>"


section \<open>Auxiliary lemmas\<close>

lemma bshape_rev_same: "bshape_rev xs xs = Inr xs"
  by (induction xs) auto

lemma bshape_rev_Nil_right: "bshape_rev xs [] = Inr xs"
  by (cases xs) auto

lemma broadcast_shapes_same: "broadcast_shapes s s = Inr s"
  by (simp add: broadcast_shapes_def bshape_rev_same)

lemma broadcast_shapes_scalar_right: "broadcast_shapes s [] = Inr s"
  by (simp add: broadcast_shapes_def bshape_rev_Nil_right)

lemma broadcast_shapes_scalar_left: "broadcast_shapes [] s = Inr s"
  by (simp add: broadcast_shapes_def)

lemma src_index_unravel: "k < prod_list ds \<Longrightarrow> src_index_rev ds (unravel_rev ds k) = k"
proof (induction ds arbitrary: k)
  case Nil
  then show ?case by simp
next
  case (Cons d ds)
  from Cons.prems have "k < prod_list ds * d" by (simp add: mult.commute)
  then have "k div d < prod_list ds" by (rule less_mult_imp_div_less)
  then have "src_index_rev ds (unravel_rev ds (k div d)) = k div d" by (rule Cons.IH)
  then show ?case by simp
qed

lemma bget_same: "k < prod_list s \<Longrightarrow> bget (s, d) s k = d ! k"
  by (simp add: bget_def src_index_unravel)

lemma bget_scalar: "bget ([], [x]) rs k = x"
  by (simp add: bget_def)

lemma binop_same_shape:
  "binop f (s, d1) (s, d2) = Inr (s, map (\<lambda>k. f (d1 ! k) (d2 ! k)) [0..<prod_list s])"
  by (simp add: binop_def broadcast_shapes_same bget_same)

lemma binop_scalar_right:
  "binop f (s, d) (scalar x) = Inr (s, map (\<lambda>k. f (d ! k) x) [0..<prod_list s])"
  by (simp add: binop_def scalar_def broadcast_shapes_scalar_right bget_same bget_scalar)

lemma binop_scalar_left:
  "binop f (scalar x) (s, d) = Inr (s, map (\<lambda>k. f x (d ! k)) [0..<prod_list s])"
  by (simp add: binop_def scalar_def broadcast_shapes_scalar_left bget_same bget_scalar)

lemma fmul_one_right: "fmul x (Fin 1) = x"
  by (cases x) (simp_all add: inf_of_sign_def)




lemma fold_update_upt:
  "n \<le> length xs \<Longrightarrow> fold (\<lambda>i ys. ys[i := q i]) [0..<n] xs = map q [0..<n] @ drop n xs"
proof (induction n)
  case 0
  then show ?case by simp
next
  case (Suc n)
  then have n: "n < length xs" by simp
  have "fold (\<lambda>i ys. ys[i := q i]) [0..<Suc n] xs = (map q [0..<n] @ drop n xs)[n := q n]"
    using Suc by simp
  also have "\<dots> = map q [0..<n] @ (drop n xs)[0 := q n]"
    by (simp add: list_update_append)
  also have "(drop n xs)[0 := q n] = q n # drop (Suc n) xs"
    using n by (simp add: Cons_nth_drop_Suc [symmetric])
  finally show ?case by simp
qed

lemma frame_ok_refl: "n \<le> length (heap s) \<Longrightarrow> frame_ok n s s"
  by (simp add: frame_ok_def)

lemma frame_ok_trans: "frame_ok n s s' \<Longrightarrow> frame_ok n s' s'' \<Longrightarrow> frame_ok n s s''"
  by (simp add: frame_ok_def)

lemma keepsI:
  "(\<And>s. n \<le> length (heap s) \<Longrightarrow> frame_ok n s (snd (m s)) \<and> (\<forall>x. fst (m s) = Inr x \<longrightarrow> Q x))
   \<Longrightarrow> keeps n m Q"
  by (simp add: keeps_def)

lemma keeps_return: "Q x \<Longrightarrow> keeps n (py_return x) Q"
  by (simp add: keeps_def py_return_def frame_ok_def)

lemma keeps_raise: "keeps n (py_raise e) Q"
  by (simp add: keeps_def py_raise_def frame_ok_def)

lemma keeps_read: "(\<And>s x. g s = Inr x \<Longrightarrow> Q x) \<Longrightarrow> keeps n (\<lambda>s. (g s, s)) Q"
  by (simp add: keeps_def frame_ok_def)

lemma keeps_lift: "(\<And>x. r = Inr x \<Longrightarrow> Q x) \<Longrightarrow> keeps n (py_lift r) Q"
  by (simp add: keeps_def py_lift_def frame_ok_def)

lemma keeps_weaken: "keeps n m P \<Longrightarrow> (\<And>x. P x \<Longrightarrow> Q x) \<Longrightarrow> keeps n m Q"
  by (simp add: keeps_def)

lemma keeps_bind:
  fixes m :: "('a, 'c) py"
  assumes m: "keeps n m P" and f: "\<And>x. P x \<Longrightarrow> keeps n (f x) Q"
  shows "keeps n (py_bind m f) Q"
proof (rule keepsI)
  fix s :: "'c pystate"
  assume n: "n \<le> length (heap s)"
  obtain r s1 where ms: "m s = (r, s1)" by (cases "m s")
  from m n ms have s1: "frame_ok n s s1" and P: "\<And>x. r = Inr x \<Longrightarrow> P x"
    by (auto simp: keeps_def)
  show "frame_ok n s (snd (py_bind m f s)) \<and> (\<forall>x. fst (py_bind m f s) = Inr x \<longrightarrow> Q x)"
  proof (cases r)
    case (Inl e)
    with ms s1 show ?thesis by (simp add: py_bind_def)
  next
    case (Inr x)
    from s1 have n1: "n \<le> length (heap s1)" by (simp add: frame_ok_def)
    from f [OF P [OF Inr]] n1
    have "frame_ok n s1 (snd (f x s1)) \<and> (\<forall>y. fst (f x s1) = Inr y \<longrightarrow> Q y)"
      by (simp add: keeps_def)
    with s1 Inr ms show ?thesis
      by (auto simp: py_bind_def intro: frame_ok_trans)
  qed
qed

lemma keeps_alloc: "keeps n (np_alloc sh d) (\<lambda>a. n \<le> base a)"
  by (simp add: keeps_def np_alloc_def frame_ok_def)

lemma keeps_zeros: "keeps n (np_zeros k) (\<lambda>a. n \<le> base a)"
  by (simp add: np_zeros_def keeps_alloc)

lemma keeps_copy_copy: "keeps n (copy_copy a) (\<lambda>a. n \<le> base a)"
  by (simp add: keeps_def copy_copy_def np_alloc_def frame_ok_def)

lemma keeps_flatten: "keeps n (flatten a) (\<lambda>a. n \<le> base a)"
  by (simp add: keeps_def flatten_def np_alloc_def frame_ok_def)

lemma keeps_reshape: "keeps n (reshape a sh) (\<lambda>b. base b = base a)"
  by (simp add: reshape_def keeps_return keeps_raise)

lemma keeps_getitem: "keeps n (getitem a i) (\<lambda>_. True)"
  by (simp add: keeps_def getitem_def frame_ok_def)

lemma keeps_setitem: "n \<le> base a \<Longrightarrow> keeps n (setitem a i x) (\<lambda>_. True)"
  by (simp add: keeps_def setitem_def frame_ok_def)

lemma keeps_call_fn: "keeps n (call_fn fn a) (\<lambda>_. True)"
  by (simp add: keeps_def call_fn_def frame_ok_def)

lemma keeps_call_fun: "keeps n (call_fun fn args) (\<lambda>_. True)"
  by (simp add: keeps_def call_fun_def frame_ok_def)

lemma keeps_for_each:
  "(\<And>i. keeps n (body i) (\<lambda>_. True)) \<Longrightarrow> keeps n (for_each is body) (\<lambda>_. True)"
  by (induction "is") (auto intro: keeps_return keeps_bind)

lemma keeps_make_step: "keeps n (make_step step_size N) (\<lambda>_. True)"
  by (cases step_size)
     (auto simp: make_step_def intro!: keeps_bind keeps_lift keeps_raise keeps_return
           intro: keeps_weaken [OF keeps_alloc])

lemma keeps_grad_num_body:
  assumes "n \<le> base gradient"
  shows "keeps n (grad_num_body fn arg shp gradient f_old step i) (\<lambda>_. True)"
  unfolding grad_num_body_def
  apply (rule keeps_bind [OF keeps_copy_copy])
  apply (rule keeps_bind [OF keeps_getitem])
  apply (rule keeps_bind [OF keeps_getitem])
  apply (rule keeps_bind [OF keeps_setitem], assumption)
  apply (rule keeps_bind [OF keeps_reshape])
  apply (rule keeps_bind [OF keeps_call_fn])
  apply (rule keeps_bind [OF keeps_getitem])
  apply (rule keeps_setitem [OF assms])
  done

lemma keeps_grad_num: "keeps n (grad_num fn arg step_size) (\<lambda>_. True)"
  unfolding grad_num_def Let_def
  apply (rule keeps_bind [OF keeps_zeros])
  apply (rule keeps_bind [OF keeps_call_fn])
  apply (rule keeps_bind [OF keeps_make_step])
  apply (rule keeps_bind)
   apply (unfold for_range_def)
   apply (rule keeps_for_each)
   apply (rule keeps_grad_num_body, assumption)
  apply (rule keeps_weaken [OF keeps_reshape])
  apply simp
  done

lemma keeps_vjp_body:
  assumes "n \<le> base vjp_num"
  shows "keeps n (vjp_body fn arg_ind shp step fn_out args v vjp_num ip) (\<lambda>_. True)"
  unfolding vjp_body_def
  apply (rule keeps_bind [OF keeps_lift [where Q = "\<lambda>_. True"]], simp)
  apply (rule keeps_bind [OF keeps_flatten])
  apply (rule keeps_bind [OF keeps_getitem])
  apply (rule keeps_bind [OF keeps_setitem], assumption)
  apply (rule keeps_bind [OF keeps_reshape])
  apply (rule keeps_bind [OF keeps_lift [where Q = "\<lambda>_. True"]], simp)
  apply (rule keeps_bind [OF keeps_call_fun])
  apply (rule keeps_bind [OF keeps_read [where Q = "\<lambda>_. True"]], simp)
  apply (rule keeps_bind [OF keeps_lift [where Q = "\<lambda>_. True"]], simp)
  apply (rule keeps_bind [OF keeps_read [where Q = "\<lambda>_. True"]], simp)
  apply (rule keeps_setitem [OF assms])
  done

lemma keeps_vjp: "keeps n (vjp fn arg_ind shp num_p step fn_out args v) (\<lambda>_. True)"
  unfolding vjp_def
  apply (rule keeps_bind [OF keeps_zeros])
  apply (rule keeps_bind)
   apply (unfold for_range_def)
   apply (rule keeps_for_each)
   apply (rule keeps_vjp_body, assumption)
  apply (rule keeps_return)
  apply simp
  done

lemmas py_defs = py_bind_def py_return_def py_raise_def py_lift_def np_alloc_def np_zeros_def
  copy_copy_def flatten_def reshape_def getitem_def setitem_def data_of_def value_of_def
  asize_def ravel_def

lemma grad_num_body_run:
  assumes "i < N" "asize arg = N" "prod_list shp = N" "i < asize step"
    "base gradient < length (heap s)" "asize gradient = N"
    "base arg < length (heap s)" "base step < length (heap s)"
  shows "grad_num_body fn arg shp gradient f_old step i s =
    (Inr (), s\<lparr>heap := (heap s)[base gradient :=
                   (heap s ! base gradient)
                     [i := fd_quotient fn shp (heap s ! base arg) (heap s ! base step) f_old i]]
                 @ [perturbed (heap s ! base arg) (heap s ! base step ! i) i],
              calls := calls s @ [(shp, perturbed (heap s ! base arg) (heap s ! base step ! i) i)]\<rparr>)"
  using assms
  by (simp add: grad_num_body_def py_defs call_fn_def nth_append list_update_append
      perturbed_def fd_quotient_def)

lemma grad_num_loop_run:
  assumes "\<forall>i\<in>set is. i < N \<and> i < asize step"
    and "asize arg = N" "prod_list shp = N" "asize gradient = N"
    and "base gradient < length (heap s)" "base arg < length (heap s)"
      "base step < length (heap s)"
    and "base gradient \<noteq> base arg" "base gradient \<noteq> base step"
    and "heap s ! base arg = A" "heap s ! base step = S"
  shows "for_each is (grad_num_body fn arg shp gradient f_old step) s =
    (Inr (), s\<lparr>heap := (heap s)[base gradient :=
                   fold (\<lambda>i ys. ys[i := fd_quotient fn shp A S f_old i]) is
                     (heap s ! base gradient)]
                 @ map (\<lambda>i. perturbed A (S ! i) i) is,
              calls := calls s @ map (\<lambda>i. (shp, perturbed A (S ! i) i)) is\<rparr>)"
  using assms
proof (induction "is" arbitrary: s)
  case Nil
  then show ?case by (simp add: py_return_def)
next
  case (Cons i "is")
  let ?g = "base gradient"
  let ?q = "fd_quotient fn shp A S f_old"
  let ?p = "\<lambda>i. perturbed A (S ! i) i"
  define s' where "s' = s\<lparr>heap := (heap s)[?g := (heap s ! ?g)[i := ?q i]] @ [?p i],
                          calls := calls s @ [(shp, ?p i)]\<rparr>"
  have body: "grad_num_body fn arg shp gradient f_old step i s = (Inr (), s')"
    using Cons.prems by (simp add: grad_num_body_run [where N = N] s'_def)
  have rest: "for_each is (grad_num_body fn arg shp gradient f_old step) s' =
    (Inr (), s'\<lparr>heap := (heap s')[?g := fold (\<lambda>i ys. ys[i := ?q i]) is (heap s' ! ?g)]
                   @ map ?p is,
               calls := calls s' @ map (\<lambda>i. (shp, ?p i)) is\<rparr>)"
    using Cons.prems by (intro Cons.IH) (simp_all add: s'_def nth_append)
  show ?case
    using Cons.prems
    by (simp add: py_bind_def body rest) (simp add: s'_def nth_append list_update_append)
qed

lemma map_nth_replicate: "map (\<lambda>k. f (replicate N c ! k)) [0..<N] = replicate N (f c)"
  by (rule nth_equalityI) simp_all

lemma make_step_float:
  "make_step (PyFloat x) N s =
     (Inr \<lparr>base = length (heap s), shape = [N]\<rparr>, s\<lparr>heap := heap s @ [replicate N x]\<rparr>)"
  by (simp add: make_step_def py_bind_def py_lift_def np_ones_def binop_scalar_left
      np_alloc_def map_nth_replicate fmul_one_right)

lemma grad_num_steps_run:
  fixes s :: "array_val pystate"
  assumes arg: "base arg < length (heap s)"
    and mk: "make_step step_size (asize arg) (s\<lparr>heap := heap s @ [replicate (asize arg) (Fin 0)],
               calls := calls s @ [value_of s arg]\<rparr>) =
             (Inr step, s\<lparr>heap := heap s @ replicate (asize arg) (Fin 0) # ext,
               calls := calls s @ [value_of s arg]\<rparr>)"
    and step: "base step \<noteq> length (heap s)" "base step < Suc (length (heap s) + length ext)"
       "asize arg \<le> asize step"
    and S: "(heap s @ replicate (asize arg) (Fin 0) # ext) ! base step = S"
  shows "grad_num fn arg step_size s =
    (Inr \<lparr>base = length (heap s), shape = shape arg\<rparr>,
     s\<lparr>heap := heap s
          @ map (fd_quotient fn (shape arg) (heap s ! base arg) S (fn (value_of s arg)))
               [0..<asize arg]
          # ext
          @ map (\<lambda>i. perturbed (heap s ! base arg) (S ! i) i) [0..<asize arg],
       calls := calls s @ value_of s arg
          # map (\<lambda>i. (shape arg, perturbed (heap s ! base arg) (S ! i) i)) [0..<asize arg]\<rparr>)"
proof -
  let ?N = "asize arg"
  let ?n = "length (heap s)"
  let ?g = "\<lparr>base = ?n, shape = [?N]\<rparr>"
  let ?q = "fd_quotient fn (shape arg) (heap s ! base arg) S (fn (value_of s arg))"
  let ?p = "\<lambda>i. perturbed (heap s ! base arg) (S ! i) i"
  let ?s2 = "s\<lparr>heap := heap s @ replicate ?N (Fin 0) # ext,
               calls := calls s @ [value_of s arg]\<rparr>"
  let ?s3 = "?s2\<lparr>heap := (heap ?s2)[base ?g := fold (\<lambda>i ys. ys[i := ?q i]) [0..<?N] (heap ?s2 ! base ?g)]
                 @ map ?p [0..<?N],
              calls := calls ?s2 @ map (\<lambda>i. (shape arg, ?p i)) [0..<?N]\<rparr>"
  have zeros: "np_zeros ?N s = (Inr ?g, s\<lparr>heap := heap s @ [replicate ?N (Fin 0)]\<rparr>)"
    by (simp add: np_zeros_def np_alloc_def)
  have call: "call_fn fn arg (s\<lparr>heap := heap s @ [replicate ?N (Fin 0)]\<rparr>) =
     (Inr (fn (value_of s arg)),
      s\<lparr>heap := heap s @ [replicate ?N (Fin 0)], calls := calls s @ [value_of s arg]\<rparr>)"
    using arg by (simp add: call_fn_def value_of_def data_of_def nth_append)
  have loop: "for_each [0..<?N] (grad_num_body fn arg (shape arg) ?g (fn (value_of s arg)) step) ?s2 =
    (Inr (), ?s3)"
    using arg step S
    by (intro grad_num_loop_run [where N = ?N]) (auto simp: asize_def nth_append)
  have "grad_num fn arg step_size s =
      py_bind (for_each [0..<?N] (grad_num_body fn arg (shape arg) ?g (fn (value_of s arg)) step))
        (\<lambda>_. reshape ?g (shape arg)) ?s2"
    by (simp add: grad_num_def Let_def py_bind_def [of "np_zeros ?N"]
        py_bind_def [of "call_fn fn arg"] py_bind_def [of "make_step step_size ?N"]
        zeros call mk for_range_def)
  also have "\<dots> = reshape ?g (shape arg) ?s3"
    by (simp only: py_bind_def loop prod.case sum.case)
  also have "\<dots> = (Inr \<lparr>base = ?n, shape = shape arg\<rparr>, ?s3)"
    by (simp add: reshape_def py_return_def asize_def)
  also have "?s3 = s\<lparr>heap := heap s @ map ?q [0..<?N] # ext @ map ?p [0..<?N],
       calls := calls s @ value_of s arg # map (\<lambda>i. (shape arg, ?p i)) [0..<?N]\<rparr>"
    by (simp add: fold_update_upt list_update_append)
  finally show ?thesis .
qed

lemma grad_num_float_run:
  fixes s :: "array_val pystate"
  assumes arg: "base arg < length (heap s)"
  shows "grad_num fn arg (PyFloat x) s =
    (Inr \<lparr>base = length (heap s), shape = shape arg\<rparr>,
     s\<lparr>heap := heap s
          @ map (fd_quotient fn (shape arg) (heap s ! base arg) (replicate (asize arg) x)
                  (fn (value_of s arg))) [0..<asize arg]
          # replicate (asize arg) x
          # map (\<lambda>i. perturbed (heap s ! base arg) (replicate (asize arg) x ! i) i) [0..<asize arg],
       calls := calls s @ value_of s arg
          # map (\<lambda>i. (shape arg, perturbed (heap s ! base arg) (replicate (asize arg) x ! i) i))
              [0..<asize arg]\<rparr>)"
  using grad_num_steps_run [OF arg, of "PyFloat x" _ "[replicate (asize arg) x]"
      "replicate (asize arg) x" fn, OF make_step_float [THEN trans]]
  by (simp add: nth_append asize_def)



lemma vjp_expr:
  assumes "fst out = osh" "fst fo = osh" "fst vv = osh"
  shows "\<exists>diff d w. binop fsub out fo = Inr diff \<and> binop fdiv diff (scalar step) = Inr d \<and>
    binop fmul vv d = Inr w \<and>
    np_sum w = vjp_slot (snd vv) (snd out) (snd fo) step (prod_list osh)"
proof -
  obtain d1 where out: "out = (osh, d1)" using assms(1) by (cases out) simp
  obtain d2 where fo: "fo = (osh, d2)" using assms(2) by (cases fo) simp
  obtain d3 where vv: "vv = (osh, d3)" using assms(3) by (cases vv) simp
  let ?n = "prod_list osh"
  let ?a = "map (\<lambda>k. fsub (d1 ! k) (d2 ! k)) [0..<?n]"
  let ?b = "map (\<lambda>k. fdiv (?a ! k) step) [0..<?n]"
  let ?c = "map (\<lambda>k. fmul (d3 ! k) (?b ! k)) [0..<?n]"
  have eq: "?c = map (\<lambda>j. fmul (d3 ! j) (fdiv (fsub (d1 ! j) (d2 ! j)) step)) [0..<?n]"
    by (rule nth_equalityI) simp_all
  have "binop fsub out fo = Inr (osh, ?a)"
    by (simp add: out fo binop_same_shape)
  moreover have "binop fdiv (osh, ?a) (scalar step) = Inr (osh, ?b)"
    by (simp only: binop_scalar_right)
  moreover have "binop fmul vv (osh, ?b) = Inr (osh, ?c)"
    by (simp only: vv binop_same_shape)
  moreover have "np_sum (osh, ?c) = vjp_slot (snd vv) (snd out) (snd fo) step ?n"
    unfolding np_sum_def snd_conv eq by (simp add: vjp_slot_def out fo vv)
  ultimately show ?thesis by blast
qed

lemma value_of_old:
  "base b < length (heap s) \<Longrightarrow> value_of (s\<lparr>heap := heap s @ ext, calls := c\<rparr>) b = value_of s b"
  by (simp add: value_of_def data_of_def nth_append)

lemma vjp_body_run:
  fixes s :: "array_val list pystate"
  assumes k: "py_index (length args) arg_ind = Inr k"
    and ip: "ip < asize (args ! k)" "ip < asize vjp_num"
    and shp: "prod_list shp = asize (args ! k)" "shape (args ! k) = shp0"
    and ar: "length args = fn_arity fn"
    and bases: "\<forall>b\<in>set args. base b < length (heap s)" "base fn_out < length (heap s)"
      "base v < length (heap s)" "base vjp_num < length (heap s)"
    and shapes: "fst (fn_body fn (vjp_args (map (value_of s) args) k shp step ip)) = shape fn_out"
      "shape v = shape fn_out"
  shows "vjp_body fn arg_ind shp step fn_out args v vjp_num ip s =
    (Inr (), s\<lparr>heap := (heap s)[base vjp_num := (heap s ! base vjp_num)
                  [ip := vjp_slot (data_of s v)
                          (snd (fn_body fn (vjp_args (map (value_of s) args) k shp step ip)))
                          (data_of s fn_out) step (asize fn_out)]]
                 @ [perturbed (data_of s (args ! k)) step ip],
              calls := calls s @ [vjp_args (map (value_of s) args) k shp step ip]\<rparr>)"
proof -
  let ?h = "heap s"
  let ?P = "perturbed (data_of s (args ! k)) step ip"
  let ?s1 = "s\<lparr>heap := ?h @ [?P]\<rparr>"
  let ?view = "\<lparr>base = length ?h, shape = shp\<rparr>"
  let ?vals = "vjp_args (map (value_of s) args) k shp step ip"
  from k have klt: "k < length args"
    by (auto simp: py_index_def split: if_splits)
  have get: "py_getitem args arg_ind = Inr (args ! k)"
    by (simp add: py_getitem_def k)
  have set: "py_setitem args arg_ind ?view = Inr (args[k := ?view])"
    by (simp add: py_setitem_def k)
  have bk: "base (args ! k) < length ?h"
    using bases(1) klt by simp
  have old: "\<And>b. base b < length ?h \<Longrightarrow> value_of ?s1 b = value_of s b"
    by (simp add: value_of_def data_of_def nth_append)
  have vals: "map (value_of ?s1) (args[k := ?view]) = ?vals"
    using bases(1) klt
    by (simp add: map_update vjp_args_def value_of_def data_of_def nth_append cong: map_cong)
  have prefix: "vjp_body fn arg_ind shp step fn_out args v vjp_num ip s =
     py_bind (call_fun fn (args[k := ?view])) (\<lambda>out.
     py_bind (\<lambda>s. (binop fsub out (value_of s fn_out), s)) (\<lambda>diff.
     py_bind (py_lift (binop fdiv diff (scalar step))) (\<lambda>dfn_darg.
     py_bind (\<lambda>s. (binop fmul (value_of s v) dfn_darg, s)) (\<lambda>weighted.
     setitem vjp_num ip (np_sum weighted))))) ?s1"
    using ip(1) shp bk
    by (simp add: vjp_body_def get set py_bind_def py_lift_def flatten_def np_alloc_def
        getitem_def setitem_def reshape_def py_return_def asize_def data_of_def nth_append
        perturbed_def)
  let ?s2 = "s\<lparr>heap := ?h @ [?P], calls := calls s @ [?vals]\<rparr>"
  have call: "call_fun fn (args[k := ?view]) ?s1 = (Inr (fn_body fn ?vals), ?s2)"
    using ar by (simp add: call_fun_def vals)
  have "fst (value_of s fn_out) = shape fn_out" "fst (value_of s v) = shape fn_out"
    using shapes by (simp_all add: value_of_def)
  from vjp_expr [OF shapes(1) this, of step]
  obtain diff d w where
    e1: "binop fsub (fn_body fn ?vals) (value_of s fn_out) = Inr diff"
    and e2: "binop fdiv diff (scalar step) = Inr d"
    and e3: "binop fmul (value_of s v) d = Inr w"
    and e4: "np_sum w = vjp_slot (snd (value_of s v)) (snd (fn_body fn ?vals))
               (snd (value_of s fn_out)) step (prod_list (shape fn_out))"
    by blast
  show ?thesis
    unfolding prefix using bases(2-4) ip(2)
    by (simp add: py_bind_def call value_of_old e1 e2 e3 e4 py_lift_def)
       (simp add: setitem_def data_of_def value_of_def asize_def nth_append list_update_append)
qed

lemma value_of_upd:
  "base b < length (heap s) \<Longrightarrow> base b \<noteq> g \<Longrightarrow>
   value_of (s\<lparr>heap := (heap s)[g := x] @ ext, calls := c\<rparr>) b = value_of s b"
  by (simp add: value_of_def data_of_def nth_append)

lemma vjp_loop_run:
  fixes s :: "array_val list pystate"
  assumes k: "py_index (length args) arg_ind = Inr k"
    and "is": "\<forall>ip\<in>set is. ip < asize (args ! k) \<and> ip < asize vjp_num"
    and shp: "prod_list shp = asize (args ! k)"
    and ar: "length args = fn_arity fn"
    and bases: "\<forall>b\<in>set args. base b < n0" "base fn_out < n0" "base v < n0"
      "n0 \<le> base vjp_num" "base vjp_num < length (heap s)"
    and vals: "map (value_of s) args = AV" "value_of s fn_out = FO" "value_of s v = VV"
    and shapes: "\<forall>ip\<in>set is. fst (fn_body fn (vjp_args AV k shp step ip)) = fst FO"
      "fst VV = fst FO"
  shows "for_each is (vjp_body fn arg_ind shp step fn_out args v vjp_num) s =
    (Inr (), s\<lparr>heap := (heap s)[base vjp_num :=
                   fold (\<lambda>ip ys. ys[ip := vjp_slot (snd VV)
                            (snd (fn_body fn (vjp_args AV k shp step ip))) (snd FO) step
                            (prod_list (fst FO))]) is
                     (heap s ! base vjp_num)]
                 @ map (\<lambda>ip. perturbed (snd (AV ! k)) step ip) is,
              calls := calls s @ map (vjp_args AV k shp step) is\<rparr>)"
  using "is" bases(5) vals shapes(1)
proof (induction "is" arbitrary: s)
  case Nil
  then show ?case by (simp add: py_return_def)
next
  case (Cons ip "is")
  let ?g = "base vjp_num"
  let ?E = "\<lambda>ip. vjp_slot (snd VV) (snd (fn_body fn (vjp_args AV k shp step ip))) (snd FO) step
              (prod_list (fst FO))"
  let ?P = "\<lambda>ip. perturbed (snd (AV ! k)) step ip"
  define s' where "s' = s\<lparr>heap := (heap s)[?g := (heap s ! ?g)[ip := ?E ip]] @ [?P ip],
                          calls := calls s @ [vjp_args AV k shp step ip]\<rparr>"
  from k have klt: "k < length args"
    by (auto simp: py_index_def split: if_splits)
  have lt: "\<forall>b\<in>set args. base b < length (heap s)" "base fn_out < length (heap s)"
      "base v < length (heap s)"
    using bases(1-4) Cons.prems(2) by auto
  have ne: "\<forall>b\<in>set args. base b \<noteq> ?g" "base fn_out \<noteq> ?g" "base v \<noteq> ?g"
    using bases(1-4) by auto
  have AVk: "data_of s (args ! k) = snd (AV ! k)"
    using Cons.prems(3) klt by (auto simp: value_of_def)
  have dv: "data_of s v = snd VV" "data_of s fn_out = snd FO"
    using Cons.prems(4,5) by (auto simp: value_of_def)
  have sh: "shape v = shape fn_out" "shape fn_out = fst FO"
    using Cons.prems(4,5) shapes(2) by (auto simp: value_of_def)
  have ip: "ip < asize (args ! k)" "ip < asize vjp_num"
    using Cons.prems(1) by simp_all
  have out: "fst (fn_body fn (vjp_args (map (value_of s) args) k shp step ip)) = shape fn_out"
    using Cons.prems(6) by (simp add: Cons.prems(3) sh(2))
  have body: "vjp_body fn arg_ind shp step fn_out args v vjp_num ip s = (Inr (), s')"
    unfolding vjp_body_run [OF k ip shp refl ar lt Cons.prems(2) out sh(1)] s'_def
      Cons.prems(3) AVk dv asize_def sh(2) ..
  have vals': "map (value_of s') args = AV" "value_of s' fn_out = FO" "value_of s' v = VV"
    using lt ne Cons.prems(3-5)
    by (simp_all add: s'_def value_of_upd cong: map_cong)
  have rest: "for_each is (vjp_body fn arg_ind shp step fn_out args v vjp_num) s' =
    (Inr (), s'\<lparr>heap := (heap s')[?g := fold (\<lambda>ip ys. ys[ip := ?E ip]) is (heap s' ! ?g)]
                   @ map ?P is,
               calls := calls s' @ map (vjp_args AV k shp step) is\<rparr>)"
    using Cons.prems(1,2,6) vals'
    by (intro Cons.IH) (simp_all add: s'_def)
  show ?case
    using Cons.prems(2)
    by (simp add: py_bind_def body rest) (simp add: s'_def nth_append list_update_append)
qed

lemma vjp_run:
  fixes s :: "array_val list pystate"
  assumes k: "py_index (length args) arg_ind = Inr k"
    and ar: "length args = fn_arity fn"
    and bases: "\<forall>b\<in>set args. base b < length (heap s)" "base fn_out < length (heap s)"
      "base v < length (heap s)"
    and shapes: "\<forall>ip<asize (args ! k).
        fst (fn_body fn (vjp_args (map (value_of s) args) k (shape (args ! k)) step ip)) = shape fn_out"
      "shape v = shape fn_out"
  shows "vjp fn arg_ind (shape (args ! k)) (asize (args ! k)) step fn_out args v s =
    (Inr \<lparr>base = length (heap s), shape = [asize (args ! k)]\<rparr>,
     s\<lparr>heap := heap s
          @ map (\<lambda>ip. vjp_slot (data_of s v)
                   (snd (fn_body fn (vjp_args (map (value_of s) args) k (shape (args ! k)) step ip)))
                   (data_of s fn_out) step (asize fn_out)) [0..<asize (args ! k)]
          # map (\<lambda>ip. perturbed (data_of s (args ! k)) step ip) [0..<asize (args ! k)],
       calls := calls s
          @ map (vjp_args (map (value_of s) args) k (shape (args ! k)) step) [0..<asize (args ! k)]\<rparr>)"
proof -
  let ?M = "asize (args ! k)"
  let ?shp = "shape (args ! k)"
  let ?n = "length (heap s)"
  let ?g = "\<lparr>base = ?n, shape = [?M]\<rparr>"
  let ?AV = "map (value_of s) args"
  let ?E = "\<lambda>ip. vjp_slot (snd (value_of s v)) (snd (fn_body fn (vjp_args ?AV k ?shp step ip)))
              (snd (value_of s fn_out)) step (prod_list (fst (value_of s fn_out)))"
  let ?P = "\<lambda>ip. perturbed (snd (?AV ! k)) step ip"
  let ?s1 = "s\<lparr>heap := heap s @ [replicate ?M (Fin 0)]\<rparr>"
  let ?s2 = "?s1\<lparr>heap := (heap ?s1)[base ?g := fold (\<lambda>ip ys. ys[ip := ?E ip]) [0..<?M] (heap ?s1 ! base ?g)]
                 @ map ?P [0..<?M],
              calls := calls ?s1 @ map (vjp_args ?AV k ?shp step) [0..<?M]\<rparr>"
  from k have klt: "k < length args"
    by (auto simp: py_index_def split: if_splits)
  have old: "\<And>b. base b < ?n \<Longrightarrow> value_of ?s1 b = value_of s b"
    by (simp add: value_of_def data_of_def nth_append)
  have zeros: "np_zeros ?M s = (Inr ?g, ?s1)"
    by (simp add: np_zeros_def np_alloc_def)
  have vals: "map (value_of ?s1) args = ?AV" "value_of ?s1 fn_out = value_of s fn_out"
      "value_of ?s1 v = value_of s v"
    using bases by (simp_all add: old cong: map_cong)
  have loop: "for_each [0..<?M] (vjp_body fn arg_ind ?shp step fn_out args v ?g) ?s1 = (Inr (), ?s2)"
    using bases shapes
    by (intro vjp_loop_run [OF k _ _ ar, where ?n0.0 = ?n] vals)
       (simp_all add: asize_def value_of_def)
  have "vjp fn arg_ind ?shp ?M step fn_out args v s = (Inr ?g, ?s2)"
    by (simp add: vjp_def py_bind_def zeros for_range_def loop py_return_def)
  also have "?s2 = s\<lparr>heap := heap s @ map ?E [0..<?M] # map ?P [0..<?M],
       calls := calls s @ map (vjp_args ?AV k ?shp step) [0..<?M]\<rparr>"
    by (simp add: fold_update_upt list_update_append)
  finally show ?thesis
    using klt by (simp add: value_of_def asize_def)
qed

lemma py_getitem_nat: "ia < length xs \<Longrightarrow> py_getitem xs (int ia) = Inr (xs ! ia)"
  by (simp add: py_getitem_def py_index_def)

lemma py_getitem_nat_out: "length xs \<le> ia \<Longrightarrow> py_getitem xs (int ia) = Inl IndexError"
  by (simp add: py_getitem_def py_index_def)

lemma vjp_single_arg_ok:
  "ia < length arg_inds \<Longrightarrow> ia < length steps \<Longrightarrow>
   vjp_single_arg fn arg_inds steps ia = Inr (vjp_maker fn (arg_inds ! ia) steps ia)"
  by (simp add: vjp_single_arg_def py_getitem_nat)

lemma vjp_makers_loop_ok:
  "\<forall>ia\<in>set ias. ia < length arg_inds \<and> ia < length steps \<Longrightarrow>
   vjp_makers_loop fn arg_inds steps ias acc =
     Inr (acc @ map (\<lambda>ia. vjp_maker fn (arg_inds ! ia) steps ia) ias)"
  by (induction ias arbitrary: acc) (simp_all add: vjp_single_arg_ok)

lemma vjp_maker_num_ok:
  "length arg_inds \<le> length steps \<Longrightarrow>
   vjp_maker_num fn arg_inds steps =
     Inr (map (\<lambda>ia. vjp_maker fn (arg_inds ! ia) steps ia) [0..<length arg_inds])"
  by (simp add: vjp_maker_num_def vjp_makers_loop_ok)

lemma vjp_makers_loop_err:
  "ia \<in> set ias \<Longrightarrow> ia < length arg_inds \<Longrightarrow> length steps \<le> ia \<Longrightarrow>
   vjp_makers_loop fn arg_inds steps ias acc = Inl IndexError"
proof (induction ias arbitrary: acc)
  case Nil
  then show ?case by simp
next
  case (Cons a ias)
  show ?case
  proof (cases "a = ia")
    case True
    with Cons.prems show ?thesis
      by (simp add: vjp_single_arg_def py_getitem_nat py_getitem_nat_out)
  next
    case False
    with Cons show ?thesis
      by (cases "vjp_single_arg fn arg_inds steps a") (auto simp: vjp_single_arg_def py_getitem_def py_index_def split: if_splits sum.splits)
  qed
qed

lemma vjp_maker_num_err:
  "length steps < length arg_inds \<Longrightarrow> vjp_maker_num fn arg_inds steps = Inl IndexError"
  unfolding vjp_maker_num_def
  by (rule vjp_makers_loop_err [of "length steps"]) simp_all

lemma vjp_maker_ok:
  "py_index (length args) arg_ind = Inr k \<Longrightarrow> ia < length steps \<Longrightarrow>
   vjp_maker fn arg_ind steps ia fn_out args =
     Inr (vjp fn arg_ind (shape (args ! k)) (asize (args ! k)) (steps ! ia) fn_out args)"
proof -
  assume k: "py_index (length args) arg_ind = Inr k" and ia: "ia < length steps"
  have "py_getitem args arg_ind = Inr (args ! k)"
    by (simp add: py_getitem_def k)
  then show ?thesis
    by (simp add: vjp_maker_def py_getitem_nat [OF ia])
qed

lemma vjp_maker_out_of_range:
  "py_index (length args) arg_ind = Inl e \<Longrightarrow>
   vjp_maker fn arg_ind steps ia fn_out args = Inl IndexError"
  by (auto simp: vjp_maker_def py_getitem_def py_index_def split: if_splits)

lemma vjp_maker_num_Inr:
  assumes "vjp_maker_num fn arg_inds steps = Inr gens"
  shows "length arg_inds \<le> length steps"
    and "gens = map (\<lambda>ia. vjp_maker fn (arg_inds ! ia) steps ia) [0..<length arg_inds]"
proof -
  show le: "length arg_inds \<le> length steps"
  proof (rule ccontr)
    assume "\<not> length arg_inds \<le> length steps"
    then have "vjp_maker_num fn arg_inds steps = Inl IndexError"
      by (simp add: vjp_maker_num_err)
    with assms show False by simp
  qed
  from vjp_maker_num_ok [OF le, of fn] assms
  show "gens = map (\<lambda>ia. vjp_maker fn (arg_inds ! ia) steps ia) [0..<length arg_inds]"
    by simp
qed

lemma py_getitem_nat_Inr: "py_getitem xs (int ia) = Inr x \<Longrightarrow> ia < length xs \<and> x = xs ! ia"
  by (auto simp: py_getitem_def py_index_def split: if_splits)

lemma vjp_maker_Inr:
  "vjp_maker fn arg_ind steps ia fn_out args = Inr cl \<Longrightarrow>
   \<exists>shp n step. cl = vjp fn arg_ind shp n step fn_out args"
  by (auto simp: vjp_maker_def split: sum.splits)

lemma keeps_vjp_of: "keeps n (vjp_of fn arg_inds steps ia fn_out args v) (\<lambda>_. True)"
proof (cases "vjp_maker_num fn arg_inds steps")
  case (Inl e)
  then show ?thesis by (simp add: vjp_of_def keeps_raise)
next
  case gens: (Inr gens)
  show ?thesis
  proof (cases "py_getitem gens (int ia)")
    case (Inl e)
    with gens show ?thesis by (simp add: vjp_of_def keeps_raise)
  next
    case gen: (Inr gen)
    from py_getitem_nat_Inr [OF gen] vjp_maker_num_Inr [OF gens]
    have g: "gen = vjp_maker fn (arg_inds ! ia) steps ia" by simp
    show ?thesis
    proof (cases "gen fn_out args")
      case (Inl e)
      with gens gen show ?thesis by (simp add: vjp_of_def keeps_raise)
    next
      case (Inr cl)
      with g obtain shp m step where "cl = vjp fn (arg_inds ! ia) shp m step fn_out args"
        using vjp_maker_Inr by blast
      with gens gen Inr show ?thesis by (simp add: vjp_of_def keeps_vjp)
    qed
  qed
qed

lemma vjp_of_run:
  assumes "length arg_inds \<le> length steps" "ia < length arg_inds"
    and k: "py_index (length args) (arg_inds ! ia) = Inr k"
  shows "vjp_of fn arg_inds steps ia fn_out args v =
    vjp fn (arg_inds ! ia) (shape (args ! k)) (asize (args ! k)) (steps ! ia) fn_out args v"
proof -
  have ia: "ia < length steps" using assms(1,2) by simp
  have "py_getitem (map (\<lambda>ia. vjp_maker fn (arg_inds ! ia) steps ia) [0..<length arg_inds]) (int ia)
        = Inr (vjp_maker fn (arg_inds ! ia) steps ia)"
    using assms(2) by (simp add: py_getitem_nat)
  then show ?thesis
    by (simp add: vjp_of_def vjp_maker_num_ok [OF assms(1)] vjp_maker_ok [OF k ia])
qed



lemma grad_num_body_returns:
  assumes "i < asize arg" "i < asize step" "i < asize gradient"
  shows "\<exists>s'. grad_num_body fn arg (shape arg) gradient f_old step i s = (Inr (), s')"
  using assms by (simp add: grad_num_body_def py_defs call_fn_def)

lemma grad_num_body_IndexError:
  assumes "i < asize arg" "asize step \<le> i"
  shows "fst (grad_num_body fn arg (shape arg) gradient f_old step i s) = Inl IndexError"
  using assms by (simp add: grad_num_body_def py_defs call_fn_def)

lemma upt_two: "1 < N \<Longrightarrow> [0..<N] = 0 # Suc 0 # [2..<N]"
  by (simp add: upt_rec numeral_2_eq_2)

lemma fst_py_bind_Inl: "fst (m s) = Inl e \<Longrightarrow> fst (py_bind m f s) = Inl e"
  by (cases "m s") (auto simp: py_bind_def)

lemma grad_num_loop_IndexError:
  assumes N: "1 < asize arg" and st: "asize step = 1" and g: "asize gradient = asize arg"
  shows "fst (for_each [0..<asize arg] (grad_num_body fn arg (shape arg) gradient f_old step) s)
         = Inl IndexError"
proof -
  let ?body = "grad_num_body fn arg (shape arg) gradient f_old step"
  obtain s1 where first: "?body 0 s = (Inr (), s1)"
    using grad_num_body_returns [of 0 arg step gradient fn f_old s] N st g by auto
  have "fst (?body (Suc 0) s1) = Inl IndexError"
    using N st by (intro grad_num_body_IndexError) simp_all
  then have "fst (py_bind (?body (Suc 0)) (\<lambda>_. for_each [2..<asize arg] ?body) s1) = Inl IndexError"
    by (rule fst_py_bind_Inl)
  then show ?thesis
    by (simp add: upt_two [OF N] py_bind_def [of "?body 0"] first)
qed

lemma py_index_out_of_range:
  "i < - int n \<or> int n \<le> i \<Longrightarrow> py_index n i = Inl IndexError"
  by (auto simp: py_index_def)





















section \<open>The claims\<close>

text \<open>
  C1 does not hold for the code. Whatever \<open>fn\<close> and \<open>x\<close> are, and whatever the AD
  engine would assemble, a call of the function that \<open>jacobian_forward\<close> produces
  raises NameError: the body reads \<open>fun\<close>, and the names bound in \<open>utils.py\<close> do not
  include it.
\<close>

theorem jacobian_forward_NameError:
  "jacobian_forward assemble (map (\<lambda>name. (name, obj name)) utils_global_names) fn x
     = Inl NameError"
  by (simp add: jacobian_forward_def load_global_def utils_global_names_def)




text \<open>
  C3. Let \<open>k\<close> be the argument position that entry \<open>ia\<close> of \<open>arg_inds\<close> selects among
  \<open>args\<close>, \<open>M\<close> the size of that argument and \<open>step\<close> the configured \<open>steps[ia]\<close>. If
  \<open>v\<close> has the shape of \<open>fn_out\<close>, and \<open>fn\<close> returns an array of that shape at every
  perturbed argument list, then the closure of generator \<open>ia\<close> returns a fresh array
  of \<open>M\<close> entries whose slot \<open>p\<close> is \<open>vjp_slot\<close>: the sum over the output entries \<open>j\<close> of
  \<open>v[j] * ((fn(args')[j] - fn_out[j]) / step)\<close>, where \<open>args'\<close> is \<open>vjp_args\<close>: the
  values of \<open>args\<close> with entry \<open>p\<close> of argument \<open>k\<close> incremented by \<open>step\<close> and every other
  argument as it was. The calls of \<open>fn\<close> are exactly these \<open>M\<close> calls, in order, and the
  heap after the call is the heap before it, then the gradient and one new buffer per
  perturbed copy of argument \<open>k\<close>.
\<close>

theorem vjp_slot_sum:
  fixes s :: "array_val list pystate"
  assumes "length arg_inds \<le> length steps" and "ia < length arg_inds"
    and "py_index (length args) (arg_inds ! ia) = Inr k"
    and "length args = fn_arity fn"
    and "\<forall>b\<in>set args. wf_array s b" and "wf_array s fn_out" and "wf_array s v"
    and "shape v = shape fn_out"
    and "\<forall>p<asize (args ! k).
           fst (fn_body fn (vjp_args (map (value_of s) args) k (shape (args ! k)) (steps ! ia) p))
           = shape fn_out"
  shows "\<exists>g s'. vjp_of fn arg_inds steps ia fn_out args v s = (Inr g, s') \<and>
           base g = length (heap s) \<and> length (data_of s' g) = asize (args ! k) \<and>
           (\<forall>p<asize (args ! k). data_of s' g ! p =
              vjp_slot (data_of s v)
                (snd (fn_body fn
                   (vjp_args (map (value_of s) args) k (shape (args ! k)) (steps ! ia) p)))
                (data_of s fn_out) (steps ! ia) (asize fn_out)) \<and>
           calls s' = calls s @
              map (vjp_args (map (value_of s) args) k (shape (args ! k)) (steps ! ia))
                [0..<asize (args ! k)] \<and>
           heap s' = heap s @ [data_of s' g] @
              map (perturbed (data_of s (args ! k)) (steps ! ia)) [0..<asize (args ! k)]"
proof -
  have b: "\<forall>b\<in>set args. base b < length (heap s)" "base fn_out < length (heap s)"
      "base v < length (heap s)"
    using assms(5-7) by (auto simp: wf_array_def)
  show ?thesis
    unfolding vjp_of_run [OF assms(1-3)] vjp_run [OF assms(3,4) b assms(9,8)]
    by (simp add: data_of_def)
qed

theorem vjp_slot_sum_witness:
  "length [0::int] \<le> length [Fin (1/10)] \<and> (0::nat) < length [0::int] \<and>
   py_index (length [\<lparr>base = 0, shape = [2]\<rparr>, \<lparr>base = 1, shape = [2]\<rparr>]) ([0] ! 0) = Inr 0 \<and>
   length [\<lparr>base = 0, shape = [2]\<rparr>, \<lparr>base = 1, shape = [2]\<rparr>] = fn_arity product_fn \<and>
   (\<exists>g s'. vjp_of product_fn [0] [Fin (1/10)] 0 \<lparr>base = 2, shape = [2]\<rparr>
              [\<lparr>base = 0, shape = [2]\<rparr>, \<lparr>base = 1, shape = [2]\<rparr>] \<lparr>base = 3, shape = [2]\<rparr>
              \<lparr>heap = [[Fin 2, Fin 3], [Fin 5, Fin 7], [Fin 10, Fin 21], [Fin 1, Fin 1]],
               calls = []\<rparr> = (Inr g, s') \<and>
            data_of s' g ! 0 = Fin 5 \<and> data_of s' g ! 1 = Fin 7)"
proof -
  let ?s = "\<lparr>heap = [[Fin 2, Fin 3], [Fin 5, Fin 7], [Fin 10, Fin 21], [Fin 1, Fin 1]],
             calls = []\<rparr> :: array_val list pystate"
  let ?a = "\<lparr>base = 0, shape = [2]\<rparr>" and ?b = "\<lparr>base = 1, shape = [2]\<rparr>"
  let ?fo = "\<lparr>base = 2, shape = [2]\<rparr>" and ?v = "\<lparr>base = 3, shape = [2]\<rparr>"
  let ?steps = "[Fin (1/10)]"
  have two: "[0..<2] = [0, Suc 0]" by (simp add: upt_rec)
  have h1: "length [0::int] \<le> length ?steps" and h2: "(0::nat) < length [0::int]" by simp_all
  have h3: "py_index (length [?a, ?b]) ([0] ! 0) = Inr 0" by (simp add: py_index_def)
  have h4: "length [?a, ?b] = fn_arity product_fn" by (simp add: product_fn_def)
  have h5: "\<forall>b\<in>set [?a, ?b]. wf_array ?s b" and h6: "wf_array ?s ?fo" and h7: "wf_array ?s ?v"
    by (simp_all add: wf_array_def asize_def)
  have h8: "shape ?v = shape ?fo" by simp
  have h9: "\<forall>p<asize ([?a, ?b] ! 0).
           fst (fn_body product_fn (vjp_args (map (value_of ?s) [?a, ?b]) 0 (shape ([?a, ?b] ! 0)) (?steps ! 0) p))
           = shape ?fo"
    by (simp add: product_fn_def vjp_args_def value_of_def)
  from vjp_slot_sum [OF h1 h2 h3 h4 h5 h6 h7 h8 h9]
  obtain g s' where run: "vjp_of product_fn [0] ?steps 0 ?fo [?a, ?b] ?v ?s = (Inr g, s')"
    and ent: "\<forall>p<asize ([?a, ?b] ! 0). data_of s' g ! p =
              vjp_slot (data_of ?s ?v)
                (snd (fn_body product_fn
                   (vjp_args (map (value_of ?s) [?a, ?b]) 0 (shape ([?a, ?b] ! 0)) (?steps ! 0) p)))
                (data_of ?s ?fo) (?steps ! 0) (asize ?fo)"
    by blast
  from ent have "data_of s' g ! 0 = Fin 5" "data_of s' g ! 1 = Fin 7"
    by (simp_all add: asize_def data_of_def value_of_def perturbed_def product_fn_def
        vjp_args_def vjp_slot_def fsub_def two)
  with run h3 h4 show ?thesis by simp
qed

text \<open>
  C4 does not hold for the code. The closure returns \<open>vjp_num\<close> as \<open>np.zeros(num_p)\<close>
  made it, a flat array; \<open>shape\<close> is only used to reshape the perturbed argument. For
  \<open>f(x) = sum(x**2)\<close> of one argument of shape \<open>(2, 2)\<close> the gradient has shape
  \<open>(4,)\<close>, while \<open>grad_num\<close>, which ends with \<open>gradient.reshape(shape)\<close>, returns shape
  \<open>(2, 2)\<close> for the same function and argument.
\<close>

theorem vjp_gradient_is_flat:
  "shape \<lparr>base = 0, shape = [2, 2]\<rparr> = [2, 2] \<and>
   fst (vjp_of (scalar_fun sum_squares) [0] [Fin 1] 0 \<lparr>base = 1, shape = []\<rparr>
          [\<lparr>base = 0, shape = [2, 2]\<rparr>] \<lparr>base = 2, shape = []\<rparr>
          \<lparr>heap = [[Fin 1, Fin 2, Fin 3, Fin 4], [Fin 30], [Fin 1]], calls = []\<rparr>)
     = Inr \<lparr>base = 3, shape = [4]\<rparr> \<and>
   fst (grad_num sum_squares \<lparr>base = 0, shape = [2, 2]\<rparr> (PyFloat (Fin 1))
          \<lparr>heap = [[Fin 1, Fin 2, Fin 3, Fin 4], [Fin 30], [Fin 1]], calls = []\<rparr>)
     = Inr \<lparr>base = 3, shape = [2, 2]\<rparr>"
proof -
  let ?t = "\<lparr>heap = [[Fin 1, Fin 2, Fin 3, Fin 4], [Fin 30], [Fin 1]], calls = []\<rparr>
            :: array_val list pystate"
  let ?a = "\<lparr>base = 0, shape = [2, 2]\<rparr>"
  let ?fo = "\<lparr>base = 1, shape = []\<rparr>" and ?v = "\<lparr>base = 2, shape = []\<rparr>"
  have k: "py_index (length [?a]) ([0] ! 0) = Inr 0" by (simp add: py_index_def)
  have vo: "vjp_of (scalar_fun sum_squares) [0] [Fin 1] 0 ?fo [?a] ?v =
            vjp (scalar_fun sum_squares) ([0] ! 0) (shape ([?a] ! 0)) (asize ([?a] ! 0))
              ([Fin 1] ! 0) ?fo [?a] ?v"
    by (rule vjp_of_run [OF _ _ k]) simp_all
  have "fst (vjp (scalar_fun sum_squares) ([0] ! 0) (shape ([?a] ! 0)) (asize ([?a] ! 0))
              ([Fin 1] ! 0) ?fo [?a] ?v ?t) = Inr \<lparr>base = 3, shape = [4]\<rparr>"
    by (subst vjp_run [OF k]) (simp_all add: scalar_fun_def scalar_def asize_def)
  then show ?thesis
    unfolding vo by (simp add: grad_num_float_run)
qed




text \<open>
  C6, as stated, fails: \<open>vjp_maker_num\<close> checks nothing when it is called. For the
  primitive \<open>fn(a, b) = a * b\<close> of two arguments and \<open>arg_inds = [5]\<close> the factory
  returns its generator; the IndexError comes only when the generator is invoked with
  the output and the two arguments, at \<open>args[arg_ind]\<close>.
\<close>

theorem vjp_maker_num_index_unchecked:
  "fn_arity product_fn = 2 \<and>
   vjp_maker_num product_fn [5] [Fin (1/10)] = Inr [vjp_maker product_fn 5 [Fin (1/10)] 0] \<and>
   vjp_maker product_fn 5 [Fin (1/10)] 0 \<lparr>base = 2, shape = [2]\<rparr>
     [\<lparr>base = 0, shape = [2]\<rparr>, \<lparr>base = 1, shape = [2]\<rparr>] = Inl IndexError"
  by (simp add: product_fn_def vjp_maker_num_ok vjp_maker_out_of_range py_index_out_of_range)

text \<open>
  C6, amended. \<open>vjp_maker_num\<close> inspects neither \<open>fn\<close> nor the entries of \<open>arg_inds\<close>.
  When \<open>steps\<close> has at least as many entries as \<open>arg_inds\<close> the call returns one
  generator per entry of \<open>arg_inds\<close>, whatever the indices are, and an index outside
  the range of the argument list is reported, as IndexError, only when its generator
  is invoked with \<open>(fn_out, *args)\<close>. The call itself fails only when \<open>steps\<close> has
  fewer entries than \<open>arg_inds\<close>, with the IndexError of \<open>steps[ia]\<close>.
\<close>

theorem vjp_maker_num_construction:
  "(length arg_inds \<le> length steps \<longrightarrow>
      (\<exists>gens. vjp_maker_num fn arg_inds steps = Inr gens \<and> length gens = length arg_inds \<and>
         (\<forall>ia<length arg_inds. \<forall>fn_out args.
            arg_inds ! ia < - int (length args) \<or> int (length args) \<le> arg_inds ! ia \<longrightarrow>
            (gens ! ia) fn_out args = Inl IndexError))) \<and>
   (length steps < length arg_inds \<longrightarrow> vjp_maker_num fn arg_inds steps = Inl IndexError)"
  by (auto simp: vjp_maker_num_ok vjp_maker_num_err vjp_maker_out_of_range
      py_index_out_of_range)

theorem vjp_maker_num_construction_witness:
  "length [5 :: int] \<le> length [Fin (1/10)] \<and>
   (\<exists>gens. vjp_maker_num product_fn [5] [Fin (1/10)] = Inr gens \<and> length gens = 1 \<and>
      (gens ! 0) \<lparr>base = 2, shape = [2]\<rparr> [\<lparr>base = 0, shape = [2]\<rparr>, \<lparr>base = 1, shape = [2]\<rparr>]
        = Inl IndexError) \<and>
   length [Fin (1/10)] < length [0 :: int, 1] \<and>
   vjp_maker_num product_fn [0, 1] [Fin (1/10)] = Inl IndexError"
proof -
  from vjp_maker_num_construction [of "[5]" "[Fin (1/10)]" product_fn]
  obtain gens where g: "vjp_maker_num product_fn [5] [Fin (1/10)] = Inr gens" "length gens = 1"
    and r: "\<forall>ia<length [5::int]. \<forall>fn_out args.
            [5] ! ia < - int (length args) \<or> int (length args) \<le> [5] ! ia \<longrightarrow>
            (gens ! ia) fn_out (args :: ndarray list) = Inl IndexError"
    by auto
  from r have "(gens ! 0) \<lparr>base = 2, shape = [2]\<rparr> [\<lparr>base = 0, shape = [2]\<rparr>, \<lparr>base = 1, shape = [2]\<rparr>]
        = Inl IndexError"
    by simp
  moreover from vjp_maker_num_construction [of "[0, 1]" "[Fin (1/10)]" product_fn]
  have "vjp_maker_num product_fn [0, 1] [Fin (1/10)] = Inl IndexError" by simp
  ultimately show ?thesis using g by auto
qed




text \<open>
  C8. Neither \<open>grad_num\<close> nor a vjp closure made by \<open>vjp_maker_num\<close> modifies an
  array of its caller. Every buffer that exists when the call starts, so in particular
  the buffer of \<open>arg\<close>, of every element of \<open>args\<close>, of \<open>fn_out\<close> and of \<open>v\<close>, has the
  same contents when the call ends, whether it returns or raises: the heap after the
  call is the heap before it followed by the buffers the call allocated. All writes
  (\<open>arg_new[i] += step[i]\<close>, \<open>args_rav[ip] += step\<close>, \<open>gradient[i] = ...\<close>,
  \<open>vjp_num[ip] = ...\<close>) go to copies and arrays the call made itself. The user's
  function is modelled as a function of the values of its arguments; it cannot write.
\<close>

theorem inputs_unmodified:
  "take (length (heap s)) (heap (snd (grad_num fn arg step_size s))) = heap s \<and>
   take (length (heap t)) (heap (snd (vjp_of f arg_inds steps ia fn_out args v t))) = heap t"
proof
  show "take (length (heap s)) (heap (snd (grad_num fn arg step_size s))) = heap s"
    using keeps_grad_num [of "length (heap s)" fn arg step_size]
    by (simp add: keeps_def frame_ok_def)
  show "take (length (heap t)) (heap (snd (vjp_of f arg_inds steps ia fn_out args v t))) = heap t"
    using keeps_vjp_of [of "length (heap t)" f arg_inds steps ia fn_out args v]
    by (simp add: keeps_def frame_ok_def)
qed




text \<open>
  C10. Only a Python float is a uniform step. With a Python int as \<open>step_size\<close> the
  test \<open>type(step_size) == float\<close> fails and \<open>step_size.ravel()\<close> raises AttributeError,
  for every \<open>arg\<close>, after \<open>fn(arg)\<close> has been evaluated. With a NumPy scalar the same
  branch makes \<open>step\<close> an array of one entry, and for every \<open>arg\<close> with more than one
  entry \<open>step[1]\<close> raises IndexError in the second round of the loop. In neither case
  is a uniform step applied.
\<close>

theorem grad_num_scalar_step_not_float:
  fixes s :: "array_val pystate"
  shows "fst (grad_num fn arg (PyInt k) s) = Inl AttributeError \<and>
         (1 < asize arg \<longrightarrow> fst (grad_num fn arg (NpFloat x) s) = Inl IndexError)"
proof
  show "fst (grad_num fn arg (PyInt k) s) = Inl AttributeError"
    by (simp add: grad_num_def Let_def make_step_def py_defs call_fn_def)
  show "1 < asize arg \<longrightarrow> fst (grad_num fn arg (NpFloat x) s) = Inl IndexError"
  proof
    assume N: "1 < asize arg"
    show "fst (grad_num fn arg (NpFloat x) s) = Inl IndexError"
      apply (simp add: grad_num_def Let_def make_step_def np_zeros_def np_alloc_def call_fn_def
          for_range_def py_bind_def [of "np_alloc _ _"] py_bind_def [of "call_fn _ _"])
      apply (rule fst_py_bind_Inl)
      apply (rule grad_num_loop_IndexError [OF N])
       apply (simp_all add: asize_def)
      done
  qed
qed

theorem grad_num_scalar_step_not_float_witness:
  "1 < asize \<lparr>base = 0, shape = [2]\<rparr> \<and>
   fst (grad_num sum_squares \<lparr>base = 0, shape = [2]\<rparr> (PyInt 1)
          \<lparr>heap = [[Fin 1, Fin 2]], calls = []\<rparr>) = Inl AttributeError \<and>
   fst (grad_num sum_squares \<lparr>base = 0, shape = [2]\<rparr> (NpFloat (Fin 1))
          \<lparr>heap = [[Fin 1, Fin 2]], calls = []\<rparr>) = Inl IndexError"
proof -
  have "1 < asize \<lparr>base = 0, shape = [2]\<rparr>" by (simp add: asize_def)
  with grad_num_scalar_step_not_float [of sum_squares "\<lparr>base = 0, shape = [2]\<rparr>" 1
      "\<lparr>heap = [[Fin 1, Fin 2]], calls = []\<rparr>" "Fin 1"]
  show ?thesis by simp
qed

end
